theory Spec2Isabelle
  imports Main "HOL-Library.Word"
begin

section \<open>Strings of the host language\<close>

text \<open>
  A string of the component is a sequence of 16-bit code units. Literals of the source
  are written through \<open>utf16\<close>, which maps each character of a Latin-1 literal to the
  code unit of the same number.
\<close>

type_synonym code_unit = "16 word"
type_synonym js_string = "code_unit list"

definition utf16 :: "string \<Rightarrow> js_string" where
  "utf16 s = map (\<lambda>c. of_nat (of_char c)) s"

text \<open>
  \<open>String.prototype.trim\<close> removes white space and line terminators from both ends:
  TAB, LF, VT, FF, CR, SP, NBSP, the space separators U+1680, U+2000..U+200A, U+202F,
  U+205F, U+3000, the separators U+2028 and U+2029, and U+FEFF.
\<close>

definition isWhiteSpace :: "code_unit \<Rightarrow> bool" where
  "isWhiteSpace u = (u \<in> {0x09, 0x0A, 0x0B, 0x0C, 0x0D, 0x20, 0xA0, 0x1680,
      0x2000, 0x2001, 0x2002, 0x2003, 0x2004, 0x2005, 0x2006, 0x2007, 0x2008, 0x2009,
      0x200A, 0x2028, 0x2029, 0x202F, 0x205F, 0x3000, 0xFEFF})"

definition trim :: "js_string \<Rightarrow> js_string" where
  "trim s = rev (dropWhile isWhiteSpace (rev (dropWhile isWhiteSpace s)))"

text \<open>
  \<open>s.split(c)\<close> for a separator of one code unit: the pieces between the occurrences
  of \<open>c\<close>, empty pieces included; the empty string gives one empty piece.
\<close>

fun split :: "code_unit \<Rightarrow> js_string \<Rightarrow> js_string list" where
  "split c [] = [[]]"
| "split c (x # xs) =
     (if x = c then [] # split c xs
      else (case split c xs of [] \<Rightarrow> [[x]] | p # ps \<Rightarrow> (x # p) # ps))"

text \<open>\<open>xs.join(sep)\<close> on an array of strings.\<close>

fun join :: "js_string \<Rightarrow> js_string list \<Rightarrow> js_string" where
  "join sep [] = []"
| "join sep [x] = x"
| "join sep (x # y # ys) = x @ sep @ join sep (y # ys)"

text \<open>\<open>Boolean(s)\<close> on a string: every string but the empty one is truthy.\<close>

definition Boolean :: "js_string \<Rightarrow> bool" where
  "Boolean s = (s \<noteq> [])"

definition comma :: code_unit where
  "comma = 0x2C"

definition space :: code_unit where
  "space = 0x20"

section \<open>Data model\<close>

text \<open>
  The interfaces \<open>FileData\<close>, \<open>SubSection\<close> and \<open>Section\<close>. Field names carry a suffix
  where the source uses one name in several interfaces (\<open>name\<close>, \<open>files\<close>, \<open>tags\<close>) or
  where it is taken in HOL (\<open>id\<close>). \<open>Record<string, SubSection>\<close> keeps the order of
  its keys, so it is an association list.
\<close>

record FileData =
  id_file :: js_string
  name_file :: js_string
  url :: js_string
  file_path :: js_string
  tags_file :: "js_string list"
  notebooklm :: "js_string option"
  created_time :: "js_string option"

record SubSection =
  name_sub :: js_string
  path_sub :: js_string
  files_sub :: "FileData list"

record Section =
  name_sec :: js_string
  files_sec :: "FileData list"
  subsections :: "(js_string \<times> SubSection) list"

text \<open>The draft of the inline edit: \<open>useState({ name: '', tags: '' })\<close>.\<close>

record EditForm =
  name_form :: js_string
  tags_form :: js_string

text \<open>The six state cells of \<open>DriveCatalog\<close>.\<close>

record State =
  sections :: "Section list"
  searchTerm :: js_string
  showTags :: bool
  isLoading :: bool
  editingFile :: "js_string option"
  editForm :: EditForm

definition initial :: State where
  "initial = \<lparr>sections = [], searchTerm = [], showTags = True, isLoading = False,
     editingFile = None, editForm = \<lparr>name_form = [], tags_form = []\<rparr>\<rparr>"

section \<open>The network\<close>

text \<open>
  An awaited promise either rejects (the \<open>await\<close> throws) or resolves to a value.
  \<open>fetch\<close> rejects on a transport failure only; a reply with an HTTP error status
  resolves, with \<open>ok\<close> false. The body of the reply to \<open>GET /files\<close> is read with
  \<open>response.json()\<close>, which rejects when the body is not JSON (and stands here also
  for a body on which reading \<open>status\<close> throws).
\<close>

datatype 'a promise = Rejected | Resolved 'a

record FilesResult =
  status :: js_string
  data :: "Section list"

record Response =
  ok :: bool
  json :: "FilesResult promise"

datatype request =
    GET js_string
  | POST js_string
  | PATCH js_string js_string "js_string list"

section \<open>Handlers as traces of effects\<close>

text \<open>
  A handler reads the state cells of the render that created it and, given how the
  requests it awaits settle, performs a sequence of effects: state setters, requests
  and log lines, in program order. \<open>run\<close> applies the setters of a trace to a state.
\<close>

datatype action =
    SetSections "Section list"
  | SetIsLoading bool
  | SetEditingFile "js_string option"
  | SetEditForm EditForm
  | SetEditFormName js_string
  | SetEditFormTags js_string
  | SetSearchTerm js_string
  | Fetch request
  | ConsoleError js_string

fun perform :: "action \<Rightarrow> State \<Rightarrow> State" where
  "perform (SetSections d) s = s\<lparr>sections := d\<rparr>"
| "perform (SetIsLoading b) s = s\<lparr>isLoading := b\<rparr>"
| "perform (SetEditingFile e) s = s\<lparr>editingFile := e\<rparr>"
| "perform (SetEditForm f) s = s\<lparr>editForm := f\<rparr>"
| "perform (SetEditFormName v) s = s\<lparr>editForm := (editForm s)\<lparr>name_form := v\<rparr>\<rparr>"
| "perform (SetEditFormTags v) s = s\<lparr>editForm := (editForm s)\<lparr>tags_form := v\<rparr>\<rparr>"
| "perform (SetSearchTerm v) s = s\<lparr>searchTerm := v\<rparr>"
| "perform (Fetch q) s = s"
| "perform (ConsoleError m) s = s"

definition run :: "action list \<Rightarrow> State \<Rightarrow> State" where
  "run as s = fold perform as s"

text \<open>
  \<open>fetchData\<close> (lines 50-62). \<open>api\<close> is the value of \<open>NEXT_PUBLIC_API_URL\<close>; \<open>r\<close> is
  how the request to \<open>/files\<close> settles.
\<close>

definition files_url :: "js_string \<Rightarrow> js_string \<Rightarrow> js_string" where
  "files_url api term =
     api @ utf16 ''/files'' @ (if term \<noteq> [] then utf16 ''?search='' @ term else [])"

definition fetchData :: "js_string \<Rightarrow> State \<Rightarrow> Response promise \<Rightarrow> action list" where
  "fetchData api s r =
     [SetIsLoading True, Fetch (GET (files_url api (searchTerm s)))] @
     (case r of
        Rejected \<Rightarrow> [ConsoleError (utf16 ''Error fetching data:'')]
      | Resolved response \<Rightarrow>
          (case json response of
             Rejected \<Rightarrow> [ConsoleError (utf16 ''Error fetching data:'')]
           | Resolved result \<Rightarrow>
               if status result = utf16 ''success'' then [SetSections (data result)]
               else [])) @
     [SetIsLoading False]"

text \<open>
  \<open>handleRefresh\<close> (lines 71-80). \<open>t\<close> is how the request to \<open>/update\<close> settles; its
  reply is not looked at.
\<close>

definition handleRefresh ::
  "js_string \<Rightarrow> State \<Rightarrow> Response promise \<Rightarrow> Response promise \<Rightarrow> action list" where
  "handleRefresh api s t r =
     [SetIsLoading True, Fetch (POST (api @ utf16 ''/update''))] @
     (case t of
        Rejected \<Rightarrow> [ConsoleError (utf16 ''Error refreshing data:'')]
      | Resolved response \<Rightarrow> fetchData api s r) @
     [SetIsLoading False]"

text \<open>\<open>startEditing\<close> (lines 82-88) and \<open>cancelEditing\<close> (lines 90-93).\<close>

definition startEditing :: "FileData \<Rightarrow> action list" where
  "startEditing file =
     [SetEditingFile (Some (id_file file)),
      SetEditForm \<lparr>name_form = name_file file,
                   tags_form = join (utf16 '', '') (tags_file file)\<rparr>]"

definition cancelEditing :: "action list" where
  "cancelEditing = [SetEditingFile None, SetEditForm \<lparr>name_form = [], tags_form = []\<rparr>]"

text \<open>
  \<open>saveFileChanges\<close> (lines 95-115). \<open>payload_tags\<close> is the expression of line 104;
  \<open>p\<close> is how the \<open>PATCH\<close> request settles, \<open>r\<close> how the reload does.
\<close>

definition payload_tags :: "js_string \<Rightarrow> js_string list" where
  "payload_tags draft = filter Boolean (map (\<lambda>tag. trim tag) (split comma draft))"

definition saveFileChanges ::
  "js_string \<Rightarrow> State \<Rightarrow> FileData \<Rightarrow> Response promise \<Rightarrow> Response promise \<Rightarrow> action list"
  where
  "saveFileChanges api s file p r =
     [Fetch (PATCH (api @ utf16 ''/files/'' @ id_file file)
                   (name_form (editForm s))
                   (payload_tags (tags_form (editForm s))))] @
     (case p of
        Rejected \<Rightarrow> [ConsoleError (utf16 ''Error updating file:'')]
      | Resolved response \<Rightarrow>
          if ok response then fetchData api s r @ cancelEditing else [])"

text \<open>
  \<open>FileCard\<close> (line 120) shows a record in its editing form exactly when
  \<open>editingFile === file.id\<close>.
\<close>

definition editing :: "State \<Rightarrow> FileData \<Rightarrow> bool" where
  "editing s file = (editingFile s = Some (id_file file))"

text \<open>
  What the component can do to its state: each event is one call of a handler, with the
  way its requests settle. \<open>reach\<close> runs a sequence of events from the initial state.
  The events are not restricted to the controls the view offers at the moment, so the
  states of \<open>reach\<close> include every state the component can be in.
\<close>

datatype event =
    DebouncedFetch "Response promise"
  | ClickRefresh "Response promise" "Response promise"
  | ClickEdit FileData
  | ClickCancel
  | ClickSave FileData "Response promise" "Response promise"
  | ChangeName js_string
  | ChangeTags js_string
  | ChangeSearch js_string

fun handle :: "js_string \<Rightarrow> event \<Rightarrow> State \<Rightarrow> action list" where
  "handle api (DebouncedFetch r) s = fetchData api s r"
| "handle api (ClickRefresh t r) s = handleRefresh api s t r"
| "handle api (ClickEdit file) s = startEditing file"
| "handle api ClickCancel s = cancelEditing"
| "handle api (ClickSave file p r) s = saveFileChanges api s file p r"
| "handle api (ChangeName v) s = [SetEditFormName v]"
| "handle api (ChangeTags v) s = [SetEditFormTags v]"
| "handle api (ChangeSearch v) s = [SetSearchTerm v]"

definition step :: "js_string \<Rightarrow> event \<Rightarrow> State \<Rightarrow> State" where
  "step api e s = run (handle api e s) s"

definition reach :: "js_string \<Rightarrow> event list \<Rightarrow> State" where
  "reach api es = fold (step api) es initial"

section \<open>Failure of a request\<close>

text \<open>
  A load fails when \<open>fetch\<close> or \<open>response.json()\<close> throws, or when the status of the
  result is not \<open>"success"\<close>. A request whose reply body is not read fails when \<open>fetch\<close>
  throws or the reply is not OK.
\<close>

definition load_failed :: "Response promise \<Rightarrow> bool" where
  "load_failed r =
     (case r of
        Rejected \<Rightarrow> True
      | Resolved response \<Rightarrow>
          (case json response of
             Rejected \<Rightarrow> True
           | Resolved result \<Rightarrow> status result \<noteq> utf16 ''success''))"

definition request_failed :: "Response promise \<Rightarrow> bool" where
  "request_failed p = (case p of Rejected \<Rightarrow> True | Resolved response \<Rightarrow> \<not> ok response)"

section \<open>The tag list as the specification words it\<close>

text \<open>
  The specification of \<open>save\<close>: split the draft tag string on commas, trim white space
  from each piece, discard the empty pieces. \<open>spec_split\<close> cuts at the first comma and
  goes on with what follows it; \<open>strip_left\<close> and \<open>strip_right\<close> remove white space
  from one end each.
\<close>

function spec_split :: "js_string \<Rightarrow> js_string list" where
  "spec_split s =
     (case dropWhile (\<lambda>u. u \<noteq> comma) s of
        [] \<Rightarrow> [s]
      | _ # rest \<Rightarrow> takeWhile (\<lambda>u. u \<noteq> comma) s # spec_split rest)"
  by pat_completeness auto
termination
proof (relation "measure length")
  show "wf (measure length)" by simp
next
  fix s :: js_string and x rest
  assume "dropWhile (\<lambda>u. u \<noteq> comma) s = x # rest"
  then have "length rest < length (dropWhile (\<lambda>u. u \<noteq> comma) s)" by simp
  also have "\<dots> \<le> length s" by (rule length_dropWhile_le)
  finally show "(rest, s) \<in> measure length" by simp
qed

declare spec_split.simps [simp del]

fun strip_left :: "js_string \<Rightarrow> js_string" where
  "strip_left [] = []"
| "strip_left (x # xs) = (if isWhiteSpace x then strip_left xs else x # xs)"

fun strip_right :: "js_string \<Rightarrow> js_string" where
  "strip_right [] = []"
| "strip_right (x # xs) =
     (case strip_right xs of
        [] \<Rightarrow> if isWhiteSpace x then [] else [x]
      | y # ys \<Rightarrow> x # y # ys)"

definition spec_tags :: "js_string \<Rightarrow> js_string list" where
  "spec_tags s =
     filter (\<lambda>p. p \<noteq> []) (map (\<lambda>p. strip_right (strip_left p)) (spec_split s))"

text \<open>A tag that the draft encoding carries unchanged.\<close>

definition clean_tag :: "js_string \<Rightarrow> bool" where
  "clean_tag t = (t \<noteq> [] \<and> comma \<notin> set t \<and> \<not> isWhiteSpace (hd t) \<and> \<not> isWhiteSpace (last t))"

section \<open>The debounced query controller\<close>

text \<open>
  Lines 64-69. Every render of the component creates its own debounced function
  \<open>_.debounce(fetchData, 300)\<close> over the \<open>fetchData\<close> of that render, which reads the
  \<open>searchTerm\<close> of that render. The effect has the dependency \<open>[searchTerm]\<close>: it runs
  after the first render and after each render in which \<open>searchTerm\<close> differs from the
  render before; it calls the debounced function of its render, and its cleanup, run
  before the next effect and at unmount, cancels that same function.

  A debounced function that is called arms a timer of 300 ms (a call while the timer is
  armed starts it anew); the timer calls \<open>fetchData\<close> when it expires; \<open>cancel\<close> disarms
  it. Time is counted in milliseconds.
\<close>

record Controller =
  clock :: nat
  current :: js_string
  render :: nat
  effect :: "nat option"
  timers :: "(nat \<times> nat \<times> js_string) list"
  issued :: "js_string list"

text \<open>
  \<open>current\<close> is the \<open>searchTerm\<close> of the latest render and \<open>render\<close> its number;
  \<open>effect\<close> is the render whose effect is installed (none after unmount); a timer is
  the render of its debounced function, its deadline and the \<open>searchTerm\<close> that
  \<open>fetchData\<close> will read; \<open>issued\<close> lists the search terms of the calls of
  \<open>fetchData\<close> made by timers, oldest first.
\<close>

definition wait :: nat where
  "wait = 300"

definition cancel :: "nat \<Rightarrow> Controller \<Rightarrow> Controller" where
  "cancel k c = c\<lparr>timers := filter (\<lambda>(k', dl, v). k' \<noteq> k) (timers c)\<rparr>"

definition debouncedFetch :: "nat \<Rightarrow> js_string \<Rightarrow> Controller \<Rightarrow> Controller" where
  "debouncedFetch k v c =
     c\<lparr>timers := (k, clock c + wait, v) # filter (\<lambda>(k', dl, v'). k' \<noteq> k) (timers c)\<rparr>"

definition mount :: "nat \<Rightarrow> Controller" where
  "mount t0 =
     debouncedFetch 0 []
       \<lparr>clock = t0, current = [], render = 0, effect = Some 0, timers = [], issued = []\<rparr>"

datatype signal = Input js_string | Rerender | Elapse nat | Unmount

definition due :: "nat \<Rightarrow> nat \<times> nat \<times> js_string \<Rightarrow> bool" where
  "due t x = (fst (snd x) \<le> t)"

fun tick :: "signal \<Rightarrow> Controller \<Rightarrow> Controller" where
  "tick (Input v) c =
     (case effect c of
        None \<Rightarrow> c
      | Some k \<Rightarrow>
          if v = current c then c
          else debouncedFetch (render c + 1) v
                 ((cancel k c)\<lparr>current := v, render := render c + 1,
                               effect := Some (render c + 1)\<rparr>))"
| "tick Rerender c =
     (case effect c of None \<Rightarrow> c | Some k \<Rightarrow> c\<lparr>render := render c + 1\<rparr>)"
| "tick (Elapse d) c =
     (let t = clock c + d;
          fired = sort_key (\<lambda>x. fst (snd x)) (filter (due t) (timers c))
      in c\<lparr>clock := t,
           timers := filter (\<lambda>x. \<not> due t x) (timers c),
           issued := issued c @ map (\<lambda>x. snd (snd x)) fired,
           render := render c + length fired\<rparr>)"
| "tick Unmount c =
     (case effect c of None \<Rightarrow> c | Some k \<Rightarrow> (cancel k c)\<lparr>effect := None\<rparr>)"

definition play :: "signal list \<Rightarrow> Controller \<Rightarrow> Controller" where
  "play ts c = fold tick ts c"





section \<open>Sample data\<close>

definition fileA :: FileData where
  "fileA = \<lparr>id_file = utf16 ''1'', name_file = utf16 ''a.txt'', url = utf16 ''u1'',
     file_path = utf16 ''/a.txt'', tags_file = [utf16 ''work'', utf16 ''tax 2024''],
     notebooklm = None, created_time = None\<rparr>"

definition fileB :: FileData where
  "fileB = \<lparr>id_file = utf16 ''2'', name_file = utf16 ''b.txt'', url = utf16 ''u2'',
     file_path = utf16 ''/b.txt'', tags_file = [], notebooklm = None,
     created_time = Some (utf16 ''2024-01-01'')\<rparr>"

definition docs :: Section where
  "docs = \<lparr>name_sec = utf16 ''Docs'', files_sec = [fileA, fileB], subsections = []\<rparr>"

definition host :: js_string where
  "host = utf16 ''http://h''"

definition reply :: "js_string \<Rightarrow> Section list \<Rightarrow> Response promise" where
  "reply st d = Resolved \<lparr>ok = True, json = Resolved \<lparr>status = st, data = d\<rparr>\<rparr>"

section \<open>Properties of the text functions\<close>

lemma split_nonempty: "split c s \<noteq> []"
  by (induction s) (auto split: list.splits)

lemma strip_left_dropWhile: "strip_left s = dropWhile isWhiteSpace s"
  by (induction s) auto

lemma strip_right_rev: "strip_right s = rev (dropWhile isWhiteSpace (rev s))"
proof (induction s)
  case Nil
  show ?case by simp
next
  case (Cons x xs)
  show ?case
  proof (cases "\<forall>u \<in> set xs. isWhiteSpace u")
    case True
    then have "dropWhile isWhiteSpace (rev xs) = []" by simp
    with Cons True show ?thesis by (simp add: dropWhile_append)
  next
    case False
    then have ne: "dropWhile isWhiteSpace (rev xs) \<noteq> []" by simp
    then have "strip_right xs \<noteq> []" using Cons by simp
    then obtain y ys where yys: "strip_right xs = y # ys" by (cases "strip_right xs") auto
    have "strip_right (x # xs) = x # strip_right xs" by (simp add: yys)
    also have "\<dots> = x # rev (dropWhile isWhiteSpace (rev xs))" by (simp only: Cons)
    also have "\<dots> = rev (dropWhile isWhiteSpace (rev (x # xs)))"
      using ne by (simp add: dropWhile_append)
    finally show ?thesis .
  qed
qed

lemma Boolean_nonempty: "Boolean = (\<lambda>p. p \<noteq> [])"
  by (rule ext) (simp add: Boolean_def)

lemma spec_split_Nil: "spec_split [] = [[]]"
  by (subst spec_split.simps) simp

lemma spec_split_comma: "spec_split (comma # xs) = [] # spec_split xs"
  by (subst spec_split.simps) simp

lemma spec_split_other:
  assumes "x \<noteq> comma"
  shows "spec_split (x # xs) =
    (case spec_split xs of [] \<Rightarrow> [[x]] | p # ps \<Rightarrow> (x # p) # ps)"
proof (cases "dropWhile (\<lambda>u. u \<noteq> comma) xs")
  case Nil
  have "spec_split xs = [xs]"
    by (subst spec_split.simps) (simp only: Nil list.case)
  moreover have "dropWhile (\<lambda>u. u \<noteq> comma) (x # xs) = []"
    using assms Nil by simp
  then have "spec_split (x # xs) = [x # xs]"
    by (subst spec_split.simps) (simp only: list.case)
  ultimately show ?thesis by simp
next
  case (Cons y rest)
  have "spec_split xs = takeWhile (\<lambda>u. u \<noteq> comma) xs # spec_split rest"
    by (subst spec_split.simps) (simp only: Cons list.case)
  moreover have "dropWhile (\<lambda>u. u \<noteq> comma) (x # xs) = y # rest"
    using assms Cons by simp
  then have "spec_split (x # xs) =
      takeWhile (\<lambda>u. u \<noteq> comma) (x # xs) # spec_split rest"
    by (subst spec_split.simps) (simp only: list.case)
  ultimately show ?thesis using assms by simp
qed

lemma split_spec_split: "split comma s = spec_split s"
  by (induction s) (simp_all add: spec_split_Nil spec_split_comma spec_split_other)

lemma payload_tags_spec: "payload_tags s = spec_tags s"
  by (simp add: payload_tags_def spec_tags_def split_spec_split trim_def
      strip_left_dropWhile strip_right_rev Boolean_nonempty)

lemma payload_tags_example:
  "payload_tags (utf16 ''x, y ,  , z'') = [utf16 ''x'', utf16 ''y'', utf16 ''z'']"
  by (simp add: payload_tags_def utf16_def trim_def isWhiteSpace_def comma_def Boolean_def)

section \<open>Saving an edit: the payload\<close>

lemma saveFileChanges_shape:
  "\<exists>rest. saveFileChanges api s f p r =
      Fetch (PATCH (api @ utf16 ''/files/'' @ id_file f) (name_form (editForm s))
               (payload_tags (tags_form (editForm s)))) # rest
    \<and> (\<forall>u n ts. Fetch (PATCH u n ts) \<notin> set rest)"
  by (auto simp: saveFileChanges_def fetchData_def cancelEditing_def split: promise.splits)

text \<open>
  C2. For every draft tag string, the first effect of \<open>saveFileChanges\<close> is the \<open>PATCH\<close>
  request, it is the only \<open>PATCH\<close> request of the call, and the tags of its payload are
  the draft split on commas, each piece trimmed of white space, the empty pieces
  discarded (\<open>spec_tags\<close>). With the draft \<open>"x, y ,  , z"\<close> the payload tags are
  \<open>["x", "y", "z"]\<close>.
\<close>

theorem save_payload_tags:
  "(\<exists>rest. saveFileChanges api s f p r =
       Fetch (PATCH (api @ utf16 ''/files/'' @ id_file f) (name_form (editForm s))
                (spec_tags (tags_form (editForm s)))) # rest
     \<and> (\<forall>u n ts. Fetch (PATCH u n ts) \<notin> set rest))
   \<and> (\<exists>rest. saveFileChanges api
          (s\<lparr>editForm := \<lparr>name_form = n, tags_form = utf16 ''x, y ,  , z''\<rparr>\<rparr>) f p r =
       Fetch (PATCH (api @ utf16 ''/files/'' @ id_file f) n
                [utf16 ''x'', utf16 ''y'', utf16 ''z'']) # rest)"
proof
  show "\<exists>rest. saveFileChanges api s f p r =
       Fetch (PATCH (api @ utf16 ''/files/'' @ id_file f) (name_form (editForm s))
                (spec_tags (tags_form (editForm s)))) # rest
     \<and> (\<forall>u n ts. Fetch (PATCH u n ts) \<notin> set rest)"
    using saveFileChanges_shape [of api s f p r] by (simp only: payload_tags_spec)
next
  let ?s = "s\<lparr>editForm := \<lparr>name_form = n, tags_form = utf16 ''x, y ,  , z''\<rparr>\<rparr>"
  from saveFileChanges_shape [of api ?s f p r]
  obtain rest where "saveFileChanges api ?s f p r =
      Fetch (PATCH (api @ utf16 ''/files/'' @ id_file f) (name_form (editForm ?s))
               (payload_tags (tags_form (editForm ?s)))) # rest"
    by blast
  then have "saveFileChanges api ?s f p r =
      Fetch (PATCH (api @ utf16 ''/files/'' @ id_file f) n
               [utf16 ''x'', utf16 ''y'', utf16 ''z'']) # rest"
    by (simp add: payload_tags_example)
  then show "\<exists>rest. saveFileChanges api ?s f p r =
       Fetch (PATCH (api @ utf16 ''/files/'' @ id_file f) n
                [utf16 ''x'', utf16 ''y'', utf16 ''z'']) # rest"
    by blast
qed

section \<open>Loading\<close>

lemma run_Nil: "run [] s = s"
  by (simp add: run_def)

lemma run_Cons: "run (a # as) s = run as (perform a s)"
  by (simp add: run_def)

lemma run_append: "run (as @ bs) s = run bs (run as s)"
  by (simp add: run_def)

text \<open>
  C1. A call of \<open>fetchData\<close> that fails, because \<open>fetch\<close> or \<open>response.json()\<close> throws
  or because the status of the result is not \<open>"success"\<close>, leaves the sections as they
  were: the call performs no \<open>setSections\<close>, and the state after it differs from the
  state before it in the loading flag at most.
\<close>

theorem load_failure_keeps_snapshot:
  assumes "load_failed r"
  shows "sections (run (fetchData api s r) s) = sections s
       \<and> (\<forall>d. SetSections d \<notin> set (fetchData api s r))
       \<and> run (fetchData api s r) s = s\<lparr>isLoading := False\<rparr>"
  using assms
  by (auto simp: fetchData_def load_failed_def run_Cons run_Nil split: promise.splits)

theorem load_failure_keeps_snapshot_witness:
  "load_failed Rejected
   \<and> load_failed (Resolved \<lparr>ok = True, json = Rejected\<rparr>)
   \<and> load_failed (reply (utf16 ''error'') [])
   \<and> sections (run (fetchData host (initial\<lparr>sections := [docs]\<rparr>) Rejected)
        (initial\<lparr>sections := [docs]\<rparr>)) = [docs]
   \<and> sections (run (fetchData host (initial\<lparr>sections := [docs]\<rparr>)
        (Resolved \<lparr>ok = True, json = Rejected\<rparr>)) (initial\<lparr>sections := [docs]\<rparr>)) = [docs]
   \<and> sections (run (fetchData host (initial\<lparr>sections := [docs]\<rparr>)
        (reply (utf16 ''error'') [])) (initial\<lparr>sections := [docs]\<rparr>)) = [docs]"
proof -
  have a: "load_failed Rejected"
    by (simp add: load_failed_def)
  have b: "load_failed (Resolved \<lparr>ok = True, json = Rejected\<rparr>)"
    by (simp add: load_failed_def)
  have c: "load_failed (reply (utf16 ''error'') [])"
    by (simp add: load_failed_def reply_def utf16_def)
  show ?thesis
    using a b c
      load_failure_keeps_snapshot [OF a, of host "initial\<lparr>sections := [docs]\<rparr>"]
      load_failure_keeps_snapshot [OF b, of host "initial\<lparr>sections := [docs]\<rparr>"]
      load_failure_keeps_snapshot [OF c, of host "initial\<lparr>sections := [docs]\<rparr>"]
    by simp
qed

text \<open>
  C6. Whatever the outcome, the first effect of \<open>fetchData\<close> sets the loading flag, the
  last one clears it, and no effect in between touches it: the flag is true from the
  start of the call until its end and false after it.
\<close>

theorem load_loading_flag:
  "\<exists>mid. fetchData api s r = SetIsLoading True # mid @ [SetIsLoading False]
     \<and> (\<forall>b. SetIsLoading b \<notin> set mid)
     \<and> isLoading (run [SetIsLoading True] s) = True
     \<and> isLoading (run (SetIsLoading True # mid) s) = True
     \<and> isLoading (run (fetchData api s r) s) = False"
  by (auto simp: fetchData_def run_Cons run_Nil split: promise.splits)

text \<open>
  C7. When the result of a load has the status \<open>"success"\<close>, the sections after the call
  are the data of the result, as a whole and in its order, whatever the sections were
  before; the call performs exactly one \<open>setSections\<close>, with that data.
\<close>

theorem load_success_replaces:
  assumes "json response = Resolved result" and "status result = utf16 ''success''"
  shows "sections (run (fetchData api s (Resolved response)) s) = data result
       \<and> filter (\<lambda>a. \<exists>d. a = SetSections d) (fetchData api s (Resolved response)) =
           [SetSections (data result)]"
  using assms by (simp add: fetchData_def run_Cons run_Nil)

theorem load_success_replaces_witness:
  "json \<lparr>ok = True, json = Resolved \<lparr>status = utf16 ''success'', data = [docs]\<rparr>\<rparr> =
     Resolved \<lparr>status = utf16 ''success'', data = [docs]\<rparr>
   \<and> status \<lparr>status = utf16 ''success'', data = [docs]\<rparr> = utf16 ''success''
   \<and> sections (run (fetchData host initial (reply (utf16 ''success'') [docs])) initial) = [docs]
   \<and> map name_sec (sections (run (fetchData host initial (reply (utf16 ''success'') [docs]))
        initial)) = [utf16 ''Docs'']
   \<and> map files_sec (sections (run (fetchData host initial (reply (utf16 ''success'') [docs]))
        initial)) = [[fileA, fileB]]"
proof -
  have a: "json \<lparr>ok = True, json = Resolved \<lparr>status = utf16 ''success'', data = [docs]\<rparr>\<rparr> =
     Resolved \<lparr>status = utf16 ''success'', data = [docs]\<rparr>"
    by simp
  have b: "status \<lparr>status = utf16 ''success'', data = [docs]\<rparr> = utf16 ''success''"
    by simp
  have "sections (run (fetchData host initial (reply (utf16 ''success'') [docs])) initial) =
      [docs]"
    using load_success_replaces [OF a b, of host initial] by (simp add: reply_def)
  then show ?thesis
    using a b by (simp add: docs_def)
qed

section \<open>Refreshing\<close>

text \<open>
  When the request to \<open>/update\<close> rejects, \<open>handleRefresh\<close> goes to its \<open>catch\<close>:
  no request to \<open>/files\<close> is made and the sections are not set.
\<close>

lemma refresh_rejected_aborts:
  "(\<forall>u. Fetch (GET u) \<notin> set (handleRefresh api s Rejected r))
   \<and> (\<forall>d. SetSections d \<notin> set (handleRefresh api s Rejected r))
   \<and> run (handleRefresh api s Rejected r) s = s\<lparr>isLoading := False\<rparr>"
  by (auto simp: handleRefresh_def run_Cons run_Nil)

text \<open>
  When the request to \<open>/update\<close> resolves, \<open>handleRefresh\<close> goes on with \<open>fetchData\<close>
  whatever the reply is: the reply is never read.
\<close>

lemma refresh_resolved_loads:
  "handleRefresh api s (Resolved response) r =
     [SetIsLoading True, Fetch (POST (api @ utf16 ''/update''))] @ fetchData api s r @
     [SetIsLoading False]"
  by (simp add: handleRefresh_def)

text \<open>
  C3. The claim: when the request to \<open>POST /update\<close> fails, the load is not attempted
  and the sections are not changed. The code at a reply to \<open>/update\<close> that is not OK
  (an HTTP error status): the request has failed, yet \<open>handleRefresh\<close> requests
  \<open>/files\<close> and stores the data it gets, so that the sections change from none to
  \<open>docs\<close>.
\<close>

theorem refresh_not_ok_still_loads:
  "request_failed (Resolved \<lparr>ok = False, json = Rejected\<rparr>)
   \<and> Fetch (GET (utf16 ''http://h/files'')) \<in>
       set (handleRefresh host initial (Resolved \<lparr>ok = False, json = Rejected\<rparr>)
              (reply (utf16 ''success'') [docs]))
   \<and> SetSections [docs] \<in>
       set (handleRefresh host initial (Resolved \<lparr>ok = False, json = Rejected\<rparr>)
              (reply (utf16 ''success'') [docs]))
   \<and> sections initial = []
   \<and> sections (run (handleRefresh host initial (Resolved \<lparr>ok = False, json = Rejected\<rparr>)
        (reply (utf16 ''success'') [docs])) initial) = [docs]"
  by (simp add: request_failed_def handleRefresh_def fetchData_def files_url_def host_def
      reply_def initial_def run_Cons run_Nil utf16_def)

section \<open>The edit session\<close>

lemma join_concat: "join sep (x # xs) = x @ concat (map (\<lambda>y. sep @ y) xs)"
  by (induction xs arbitrary: x) simp_all

lemma sep_code_units: "utf16 '', '' = [0x2C, 0x20]"
  by (simp add: utf16_def)

text \<open>
  C9. For every file record, \<open>startEditing\<close> sets \<open>editingFile\<close> to the id of the record
  and the draft to the name of the record and its tags joined with \<open>", "\<close>, and changes
  nothing else; after it the records shown in their editing form are exactly those with
  the id of that record. The tag string of the draft is empty for a record without
  tags; otherwise it is the first tag followed, for each further tag in order, by the
  code units U+002C and U+0020 and that tag.
\<close>

theorem begin_seeds_draft:
  "run (startEditing f) s =
     s\<lparr>editingFile := Some (id_file f),
       editForm := \<lparr>name_form = name_file f,
                    tags_form = join (utf16 '', '') (tags_file f)\<rparr>\<rparr>
   \<and> (editing (run (startEditing f) s) g \<longleftrightarrow> id_file g = id_file f)
   \<and> name_form (editForm (run (startEditing f) s)) = name_file f
   \<and> tags_form (editForm (run (startEditing f) s)) =
       (case tags_file f of
          [] \<Rightarrow> []
        | t # ts \<Rightarrow> t @ concat (map (\<lambda>x. [0x2C, 0x20] @ x) ts))"
proof -
  have 1: "run (startEditing f) s =
     s\<lparr>editingFile := Some (id_file f),
       editForm := \<lparr>name_form = name_file f,
                    tags_form = join (utf16 '', '') (tags_file f)\<rparr>\<rparr>"
    by (simp add: startEditing_def run_Cons run_Nil)
  have 2: "editing (run (startEditing f) s) g \<longleftrightarrow> id_file g = id_file f"
    by (auto simp: 1 editing_def)
  have 3: "name_form (editForm (run (startEditing f) s)) = name_file f"
    by (simp add: 1)
  have "join (utf16 '', '') (tags_file f) =
       (case tags_file f of
          [] \<Rightarrow> []
        | t # ts \<Rightarrow> t @ concat (map (\<lambda>x. [0x2C, 0x20] @ x) ts))"
    by (cases "tags_file f") (simp_all only: join.simps(1) join_concat sep_code_units list.case)
  then have 4: "tags_form (editForm (run (startEditing f) s)) =
       (case tags_file f of
          [] \<Rightarrow> []
        | t # ts \<Rightarrow> t @ concat (map (\<lambda>x. [0x2C, 0x20] @ x) ts))"
    by (simp add: 1)
  from 1 2 3 4 show ?thesis by blast
qed

theorem begin_seeds_draft_witness:
  "editingFile (run (startEditing fileA) initial) = Some (utf16 ''1'')
   \<and> editForm (run (startEditing fileA) initial) =
       \<lparr>name_form = utf16 ''a.txt'', tags_form = utf16 ''work, tax 2024''\<rparr>
   \<and> editForm (run (startEditing fileB) (run (startEditing fileA) initial)) =
       \<lparr>name_form = utf16 ''b.txt'', tags_form = []\<rparr>
   \<and> editForm (run (startEditing (fileB\<lparr>tags_file := [utf16 ''x'', utf16 ''y'', utf16 ''z'']\<rparr>))
        initial) = \<lparr>name_form = utf16 ''b.txt'', tags_form = utf16 ''x, y, z''\<rparr>
   \<and> editing (run (startEditing fileA) initial) fileA
   \<and> \<not> editing (run (startEditing fileA) initial) fileB"
proof -
  have a: "editingFile (run (startEditing fileA) initial) = Some (utf16 ''1'')
      \<and> name_form (editForm (run (startEditing fileA) initial)) = utf16 ''a.txt''
      \<and> tags_form (editForm (run (startEditing fileA) initial)) = utf16 ''work, tax 2024''"
    using begin_seeds_draft [of fileA initial fileA]
    by (simp add: fileA_def utf16_def)
  have b: "name_form (editForm (run (startEditing fileB) (run (startEditing fileA) initial))) =
        utf16 ''b.txt''
      \<and> tags_form (editForm (run (startEditing fileB) (run (startEditing fileA) initial))) =
        []"
    using begin_seeds_draft [of fileB "run (startEditing fileA) initial" fileB]
    by (simp add: fileB_def utf16_def)
  have c: "name_form (editForm (run (startEditing
          (fileB\<lparr>tags_file := [utf16 ''x'', utf16 ''y'', utf16 ''z'']\<rparr>)) initial)) =
        utf16 ''b.txt''
      \<and> tags_form (editForm (run (startEditing
          (fileB\<lparr>tags_file := [utf16 ''x'', utf16 ''y'', utf16 ''z'']\<rparr>)) initial)) =
        utf16 ''x, y, z''"
    using begin_seeds_draft
      [of "fileB\<lparr>tags_file := [utf16 ''x'', utf16 ''y'', utf16 ''z'']\<rparr>" initial fileB]
    by (simp add: fileB_def utf16_def)
  have ids: "id_file fileB \<noteq> id_file fileA"
    by (simp add: fileA_def fileB_def utf16_def)
  have d: "editing (run (startEditing fileA) initial) fileA
      \<and> \<not> editing (run (startEditing fileA) initial) fileB"
    using begin_seeds_draft [of fileA initial fileA] begin_seeds_draft [of fileA initial fileB]
      ids
    by blast
  have e: "\<And>x n t. name_form x = n \<and> tags_form x = t \<Longrightarrow>
      x = \<lparr>name_form = n, tags_form = t\<rparr>"
    by auto
  from a b c d e show ?thesis by blast
qed

text \<open>
  C5. When the reply to the \<open>PATCH\<close> request is OK, \<open>saveFileChanges\<close> goes on with
  \<open>fetchData\<close> and then with \<open>cancelEditing\<close>: after the \<open>PATCH\<close> it sets the loading
  flag and requests \<open>/files\<close> with the current search term, once; when that reload
  succeeds the sections become the data of its result; at the end it clears the loading
  flag, then the edited id and the draft, so that no record is being edited and the
  draft is empty. When the \<open>PATCH\<close> request fails (\<open>fetch\<close> rejects or the reply is
  not OK) the call sets no state cell: the edited id, the draft and the sections are
  what they were.
\<close>

theorem save_outcomes:
  "(ok response \<longrightarrow>
      saveFileChanges api s f (Resolved response) r =
        [Fetch (PATCH (api @ utf16 ''/files/'' @ id_file f) (name_form (editForm s))
                  (payload_tags (tags_form (editForm s))))] @
        fetchData api s r @ cancelEditing
      \<and> (\<exists>mid. saveFileChanges api s f (Resolved response) r =
            [Fetch (PATCH (api @ utf16 ''/files/'' @ id_file f) (name_form (editForm s))
                      (payload_tags (tags_form (editForm s)))),
             SetIsLoading True,
             Fetch (GET (files_url api (searchTerm s)))] @ mid @
            [SetIsLoading False, SetEditingFile None,
             SetEditForm \<lparr>name_form = [], tags_form = []\<rparr>]
          \<and> (\<forall>u. Fetch (GET u) \<notin> set mid))
      \<and> (json reload = Resolved result \<and> status result = utf16 ''success'' \<longrightarrow>
            sections (run (saveFileChanges api s f (Resolved response) (Resolved reload)) s) =
              data result)
      \<and> editingFile (run (saveFileChanges api s f (Resolved response) r) s) = None
      \<and> editForm (run (saveFileChanges api s f (Resolved response) r) s) =
          \<lparr>name_form = [], tags_form = []\<rparr>)
   \<and> (request_failed p \<longrightarrow>
      run (saveFileChanges api s f p r) s = s
      \<and> (\<forall>a \<in> set (saveFileChanges api s f p r). perform a s = s))"
  by (auto simp: saveFileChanges_def request_failed_def fetchData_def cancelEditing_def
      run_Cons run_Nil run_append split: promise.splits)

theorem save_outcomes_witness:
  "ok \<lparr>ok = True, json = Rejected\<rparr>
   \<and> editingFile (run (startEditing fileA) initial) = Some (utf16 ''1'')
   \<and> sections (run (startEditing fileA) initial) = []
   \<and> Fetch (GET (utf16 ''http://h/files'')) \<in>
       set (saveFileChanges host (run (startEditing fileA) initial) fileA
        (Resolved \<lparr>ok = True, json = Rejected\<rparr>) (reply (utf16 ''success'') [docs]))
   \<and> sections (run (saveFileChanges host (run (startEditing fileA) initial) fileA
        (Resolved \<lparr>ok = True, json = Rejected\<rparr>) (reply (utf16 ''success'') [docs]))
        (run (startEditing fileA) initial)) = [docs]
   \<and> editingFile (run (saveFileChanges host (run (startEditing fileA) initial) fileA
        (Resolved \<lparr>ok = True, json = Rejected\<rparr>) (reply (utf16 ''success'') [docs]))
        (run (startEditing fileA) initial)) = None
   \<and> request_failed Rejected
   \<and> request_failed (Resolved \<lparr>ok = False, json = Rejected\<rparr>)
   \<and> run (saveFileChanges host (run (startEditing fileA) initial) fileA Rejected Rejected)
        (run (startEditing fileA) initial) = run (startEditing fileA) initial
   \<and> run (saveFileChanges host (run (startEditing fileA) initial) fileA
        (Resolved \<lparr>ok = False, json = Rejected\<rparr>) Rejected)
        (run (startEditing fileA) initial) = run (startEditing fileA) initial"
proof -
  have a: "ok \<lparr>ok = True, json = Rejected\<rparr>"
    by simp
  have b: "request_failed Rejected"
    by (simp add: request_failed_def)
  have c: "request_failed (Resolved \<lparr>ok = False, json = Rejected\<rparr>)"
    by (simp add: request_failed_def)
  have d: "editingFile (run (startEditing fileA) initial) = Some (utf16 ''1'')
      \<and> sections (run (startEditing fileA) initial) = []"
    by (simp add: startEditing_def run_Cons run_Nil fileA_def initial_def)
  have st: "searchTerm (run (startEditing fileA) initial) = []"
    by (simp add: startEditing_def run_Cons run_Nil initial_def)
  let ?s = "run (startEditing fileA) initial"
  let ?ok = "\<lparr>ok = True, json = Rejected\<rparr>"
  let ?res = "\<lparr>status = utf16 ''success'', data = [docs]\<rparr>"
  let ?good = "\<lparr>ok = True, json = Resolved ?res\<rparr>"
  have r: "reply (utf16 ''success'') [docs] = Resolved ?good"
    by (simp add: reply_def)
  have j: "json ?good = Resolved ?res \<and> status ?res = utf16 ''success''"
    by simp
  note th = save_outcomes [of ?ok host ?s fileA "Resolved ?good" ?good ?res Rejected]
  have u: "files_url host (searchTerm ?s) = utf16 ''http://h/files''"
    by (simp add: st files_url_def host_def utf16_def)
  from th a obtain mid where
    "saveFileChanges host ?s fileA (Resolved ?ok) (Resolved ?good) =
       [Fetch (PATCH (host @ utf16 ''/files/'' @ id_file fileA) (name_form (editForm ?s))
                 (payload_tags (tags_form (editForm ?s)))),
        SetIsLoading True,
        Fetch (GET (files_url host (searchTerm ?s)))] @ mid @
       [SetIsLoading False, SetEditingFile None,
        SetEditForm \<lparr>name_form = [], tags_form = []\<rparr>]"
    by blast
  then have "Fetch (GET (files_url host (searchTerm ?s))) \<in>
      set (saveFileChanges host ?s fileA (Resolved ?ok) (Resolved ?good))"
    by simp
  then have g: "Fetch (GET (utf16 ''http://h/files'')) \<in>
      set (saveFileChanges host ?s fileA (Resolved ?ok) (reply (utf16 ''success'') [docs]))"
    by (simp only: r u)
  have "sections (run (saveFileChanges host ?s fileA (Resolved ?ok) (Resolved ?good)) ?s) =
      data ?res"
    using th a j by blast
  then have h: "sections (run (saveFileChanges host ?s fileA (Resolved ?ok)
        (reply (utf16 ''success'') [docs])) ?s) = [docs]"
    by (simp only: r) simp
  have "editingFile (run (saveFileChanges host ?s fileA (Resolved ?ok) (Resolved ?good)) ?s) =
      None"
    using th a by blast
  then have e: "editingFile (run (saveFileChanges host ?s fileA (Resolved ?ok)
        (reply (utf16 ''success'') [docs])) ?s) = None"
    by (simp only: r)
  have f: "run (saveFileChanges host ?s fileA Rejected Rejected) ?s = ?s"
    using b save_outcomes [of ?ok host ?s fileA Rejected ?good ?res Rejected]
    by blast
  have k: "run (saveFileChanges host ?s fileA (Resolved \<lparr>ok = False, json = Rejected\<rparr>)
        Rejected) ?s = ?s"
    using c save_outcomes [of ?ok host ?s fileA Rejected ?good ?res
      "Resolved \<lparr>ok = False, json = Rejected\<rparr>"]
    by blast
  from a b c d g h e f k show ?thesis
    by blast
qed

text \<open>
  Any state has at most one edited id, and \<open>startEditing\<close> on a record while another
  one is being edited replaces the edit.
\<close>

lemma editing_same_id: "editing s f \<Longrightarrow> editing s g \<Longrightarrow> id_file f = id_file g"
  by (simp add: editing_def)

text \<open>
  C4. In every state that a sequence of events reaches from the initial state, the
  records shown in their editing form all have one id, and there is one draft. Starting
  an edit on a record \<open>a\<close> while a record \<open>b\<close> is being edited is not rejected: the edit
  of \<open>b\<close> is dropped, the records being edited are those with the id of \<open>a\<close>, and the
  draft is the one seeded from \<open>a\<close>. The outcome is a function of the state and of
  \<open>a\<close>.
\<close>

theorem single_active_edit:
  "(\<forall>f g. editing (reach api es) f \<and> editing (reach api es) g \<longrightarrow> id_file f = id_file g)
   \<and> (editing s b \<longrightarrow>
        (\<forall>g. editing (step api (ClickEdit a) s) g \<longleftrightarrow> id_file g = id_file a)
        \<and> editForm (step api (ClickEdit a) s) =
            \<lparr>name_form = name_file a, tags_form = join (utf16 '', '') (tags_file a)\<rparr>)"
  by (auto simp: editing_def step_def startEditing_def run_Cons run_Nil)

theorem single_active_edit_witness:
  "editing (reach host [ClickEdit fileB]) fileB
   \<and> editing (step host (ClickEdit fileA) (reach host [ClickEdit fileB])) fileA
   \<and> \<not> editing (step host (ClickEdit fileA) (reach host [ClickEdit fileB])) fileB
   \<and> editForm (step host (ClickEdit fileA) (reach host [ClickEdit fileB])) =
       \<lparr>name_form = utf16 ''a.txt'', tags_form = utf16 ''work, tax 2024''\<rparr>
   \<and> editing (reach host [ClickEdit fileB, ClickEdit fileA]) fileA
   \<and> editing (reach host [ClickEdit fileB, ClickEdit fileA])
        (fileA\<lparr>file_path := utf16 ''/sub/a.txt''\<rparr>)
   \<and> id_file fileA = id_file (fileA\<lparr>file_path := utf16 ''/sub/a.txt''\<rparr>)"
proof -
  have a: "editing (reach host [ClickEdit fileB]) fileB"
    by (simp add: editing_def reach_def step_def startEditing_def run_Cons run_Nil)
  have b: "editing (reach host [ClickEdit fileB, ClickEdit fileA]) fileA
      \<and> editing (reach host [ClickEdit fileB, ClickEdit fileA])
          (fileA\<lparr>file_path := utf16 ''/sub/a.txt''\<rparr>)"
    by (simp add: editing_def reach_def step_def startEditing_def run_Cons run_Nil)
  have c: "id_file fileB \<noteq> id_file fileA"
    by (simp add: fileA_def fileB_def utf16_def)
  have d: "join (utf16 '', '') (tags_file fileA) = utf16 ''work, tax 2024''"
    by (simp add: fileA_def utf16_def)
  have e: "name_file fileA = utf16 ''a.txt''"
    by (simp add: fileA_def)
  show ?thesis
    using a b c d e
      single_active_edit [of host "[ClickEdit fileB, ClickEdit fileA]"
        "reach host [ClickEdit fileB]" fileB fileA]
    by simp
qed

section \<open>The draft encoding of tags\<close>

lemma sep_units: "utf16 '', '' = [comma, space]"
  by (simp add: utf16_def comma_def space_def)

lemma space_not_comma: "space \<noteq> comma"
  by (simp add: comma_def space_def)

lemma space_white: "isWhiteSpace space"
  by (simp add: isWhiteSpace_def space_def)

lemma split_no_comma: "comma \<notin> set t \<Longrightarrow> split comma t = [t]"
  by (induction t) auto

lemma split_at_comma: "comma \<notin> set t \<Longrightarrow> split comma (t @ comma # rest) = t # split comma rest"
  by (induction t) auto

lemma split_join:
  "\<forall>t \<in> set (t0 # ts). comma \<notin> set t \<Longrightarrow>
   split comma (join [comma, space] (t0 # ts)) = t0 # map (\<lambda>t. space # t) ts"
proof (induction ts arbitrary: t0)
  case Nil
  then show ?case by (simp add: split_no_comma)
next
  case (Cons t1 ts)
  then have "split comma (join [comma, space] (t1 # ts)) = t1 # map (\<lambda>t. space # t) ts"
    by simp
  moreover have "comma \<notin> set t0" using Cons.prems by simp
  ultimately show ?case
    using space_not_comma by (simp add: split_at_comma)
qed

lemma dropWhile_hd: "s \<noteq> [] \<Longrightarrow> \<not> P (hd s) \<Longrightarrow> dropWhile P s = s"
  by (cases s) auto

lemma trim_clean: "clean_tag t \<Longrightarrow> trim t = t"
proof -
  assume c: "clean_tag t"
  then have ne: "t \<noteq> []" by (simp add: clean_tag_def)
  have 1: "dropWhile isWhiteSpace t = t"
    using c ne by (simp add: dropWhile_hd clean_tag_def)
  have "hd (rev t) = last t" using ne by (simp add: hd_rev)
  then have "dropWhile isWhiteSpace (rev t) = rev t"
    using c ne by (simp add: dropWhile_hd clean_tag_def)
  with 1 show "trim t = t" by (simp add: trim_def)
qed

lemma trim_space_clean: "clean_tag t \<Longrightarrow> trim (space # t) = t"
  using trim_clean [of t] by (simp add: trim_def space_white)

lemma payload_tags_join:
  assumes "\<forall>t \<in> set ts. clean_tag t"
  shows "payload_tags (join (utf16 '', '') ts) = ts"
proof (cases ts)
  case Nil
  then show ?thesis by (simp add: payload_tags_def trim_def Boolean_def)
next
  case (Cons t0 ts')
  have nc: "\<forall>t \<in> set (t0 # ts'). comma \<notin> set t"
    using assms Cons by (simp add: clean_tag_def)
  have "map trim (t0 # map (\<lambda>t. space # t) ts') = t0 # ts'"
    using assms Cons by (simp add: trim_clean trim_space_clean map_idI)
  moreover have "filter Boolean (t0 # ts') = t0 # ts'"
    using assms Cons by (auto simp: Boolean_def clean_tag_def filter_id_conv)
  ultimately show ?thesis
    using split_join [OF nc] Cons by (simp add: payload_tags_def sep_units)
qed

text \<open>
  C10. For every file record whose tags are non-empty, without a comma and without
  white space at either end, \<open>startEditing\<close> followed by \<open>saveFileChanges\<close> with the
  draft as seeded sends a payload whose tags are the tags of the record, in order (and
  whose name is the name of the record).
\<close>

theorem draft_round_trip:
  assumes "\<forall>t \<in> set (tags_file f). clean_tag t"
  shows "\<exists>rest. saveFileChanges api (run (startEditing f) s) f p r =
     Fetch (PATCH (api @ utf16 ''/files/'' @ id_file f) (name_file f) (tags_file f)) # rest"
  using payload_tags_join [OF assms]
  by (simp add: saveFileChanges_def startEditing_def run_Cons run_Nil)

theorem draft_round_trip_witness:
  "list_all clean_tag (tags_file fileA)
   \<and> tags_form (editForm (run (startEditing fileA) initial)) = utf16 ''work, tax 2024''
   \<and> (\<exists>rest. saveFileChanges host (run (startEditing fileA) initial) fileA Rejected Rejected =
        Fetch (PATCH (utf16 ''http://h/files/1'') (utf16 ''a.txt'')
                 [utf16 ''work'', utf16 ''tax 2024'']) # rest)"
proof -
  have h: "\<forall>t \<in> set (tags_file fileA). clean_tag t"
    by (simp add: fileA_def clean_tag_def utf16_def comma_def isWhiteSpace_def)
  have d: "tags_form (editForm (run (startEditing fileA) initial)) = utf16 ''work, tax 2024''"
    by (simp add: fileA_def startEditing_def run_Cons run_Nil utf16_def)
  from draft_round_trip [OF h, of host initial Rejected Rejected]
  have "\<exists>rest. saveFileChanges host (run (startEditing fileA) initial) fileA Rejected Rejected =
      Fetch (PATCH (utf16 ''http://h/files/1'') (utf16 ''a.txt'')
               [utf16 ''work'', utf16 ''tax 2024'']) # rest"
    by (simp add: fileA_def host_def utf16_def)
  with h d show ?thesis by (simp add: list_all_iff)
qed

section \<open>Debouncing the search\<close>




















text \<open>
  For contrast: two changes with a full quiet period after each give two fetches, one
  with each text.
\<close>

lemma slow_typing_two_fetches:
  "issued (play [Input (utf16 ''a''), Elapse 300, Input (utf16 ''ab''), Elapse 300] (mount 0)) =
     [utf16 ''a'', utf16 ''ab'']"
  by (simp add: play_def mount_def debouncedFetch_def cancel_def due_def wait_def utf16_def Let_def)

end
